theory Spec2Isabelle
  imports Main
begin

section \<open>The chapter generator of docs/make_chapters.py\<close>

text \<open>
  The script reads source files line by line, classifies every line as a comment line or a
  code line (\<open>make_lines\<close>), groups consecutive lines of the same class into blocks
  (\<open>lines_to_blocks\<close>) and renders the blocks (\<open>__str__\<close> of \<open>Block\<close>,
  \<open>CodeBlock\<close> and \<open>File\<close>).

  Python strings are modelled as \<open>string\<close>; a character stands for the code point of the same
  number, so the model covers text whose code points are below 256.
\<close>

subsection \<open>Python values the script relies on\<close>

datatype py_error = AttributeError | IndexError

definition newline :: char where
  "newline = CHR 0x0A"

text \<open>\<open>"\n".join(xs)\<close>\<close>

fun join_nl :: "string list \<Rightarrow> string" where
  "join_nl [] = []"
| "join_nl [x] = x"
| "join_nl (x # y # ys) = x @ newline # join_nl (y # ys)"

text \<open>
  The class \<open>\s\<close> of a \<open>str\<close> pattern is Unicode white space; below 256 these are the
  code points 9 to 13, 28 to 32, 133 and 160.
\<close>

definition is_space :: "char \<Rightarrow> bool" where
  "is_space c \<longleftrightarrow> c \<in> set [CHR 0x09, CHR 0x0A, CHR 0x0B, CHR 0x0C, CHR 0x0D,
      CHR 0x1C, CHR 0x1D, CHR 0x1E, CHR 0x1F, CHR 0x20, CHR 0x85, CHR 0xA0]"

subsection \<open>The regular expressions of the script\<close>

text \<open>
  The script uses four patterns, all built from a literal, the dot, and a greedy star over
  \<open>\s\<close> or \<open>[^\n]\<close>, the last star being capture group 1:
  \<^verbatim>\<open>\s*//\s*([^\n]*)\<close>, \<^verbatim>\<open>\s*#\s*([^\n]*)\<close>, \<^verbatim>\<open>([^\n]*)\<close> and \<^verbatim>\<open>.([^\n]*)\<close>.
  \<open>re_run\<close> is the backtracking matcher of \<open>re.match\<close> on such a pattern: anchored at
  the start of the string, a star first tries to take one more character and falls back to
  taking none. It returns the text of group 1, or \<open>None\<close> when there is no match.
\<close>

datatype char_class = Whitespace | NotNewline

fun in_class :: "char_class \<Rightarrow> char \<Rightarrow> bool" where
  "in_class Whitespace c = is_space c"
| "in_class NotNewline c = (c \<noteq> newline)"

datatype re_item = Star char_class | Lit string | Dot | GroupStar char_class

fun re_run :: "re_item list \<Rightarrow> string \<Rightarrow> string \<Rightarrow> string option" where
  "re_run [] s g = Some g"
| "re_run (Lit l # r) s g =
     (if take (length l) s = l then re_run r (drop (length l) s) g else None)"
| "re_run (Dot # r) [] g = None"
| "re_run (Dot # r) (c # cs) g = (if c \<noteq> newline then re_run r cs g else None)"
| "re_run (Star k # r) [] g = re_run r [] g"
| "re_run (Star k # r) (c # cs) g =
     (if in_class k c
      then (case re_run (Star k # r) cs g of
              Some h \<Rightarrow> Some h
            | None \<Rightarrow> re_run r (c # cs) g)
      else re_run r (c # cs) g)"
| "re_run (GroupStar k # r) [] g = re_run r [] g"
| "re_run (GroupStar k # r) (c # cs) g =
     (if in_class k c
      then (case re_run (GroupStar k # r) cs (g @ [c]) of
              Some h \<Rightarrow> Some h
            | None \<Rightarrow> re_run r (c # cs) g)
      else re_run r (c # cs) g)"

definition re_match :: "re_item list \<Rightarrow> string \<Rightarrow> string option" where
  "re_match pat s = re_run pat s []"

subsection \<open>Lines and blocks\<close>

text \<open>
  \<open>CommentLine\<close> and \<open>CodeLine\<close> are the two subclasses of \<open>Line\<close> the script creates;
  \<open>type(x) == type(y)\<close> on lines compares the constructors.
\<close>

datatype line =
    is_CommentLine: CommentLine (content: string)
  | is_CodeLine: CodeLine (content: string)

definition same_type :: "line \<Rightarrow> line \<Rightarrow> bool" where
  "same_type a b \<longleftrightarrow> is_CodeLine a = is_CodeLine b"

datatype block =
    Block (lines: "line list")
  | is_CodeBlock: CodeBlock (language: string) (lines: "line list")

fun add_line :: "block \<Rightarrow> line \<Rightarrow> block" where
  "add_line (Block ls) l = Block (ls @ [l])"
| "add_line (CodeBlock lang ls) l = CodeBlock lang (ls @ [l])"

text \<open>\<open>Block.__str__\<close> and \<open>CodeBlock.__str__\<close>\<close>

fun block_str :: "block \<Rightarrow> string" where
  "block_str (Block ls) = join_nl (map content ls)"
| "block_str (CodeBlock lang ls) =
     newline # ''```'' @ lang @ [newline] @ join_nl (map content ls) @ newline # ''```'' @ [newline]"

subsection \<open>make_lines\<close>

definition comment_indicator_re :: "string \<Rightarrow> re_item list" where
  "comment_indicator_re lang =
     (if lang = ''rs''
      then [Star Whitespace, Lit ''//'', Star Whitespace, GroupStar NotNewline]
      else [Star Whitespace, Lit ''#'', Star Whitespace, GroupStar NotNewline])"

definition clean_line_re :: "re_item list" where
  "clean_line_re = [GroupStar NotNewline]"

text \<open>The body of the loop of \<open>make_lines\<close>: the lines yielded for one raw line.\<close>

definition make_line :: "string \<Rightarrow> string \<Rightarrow> line list" where
  "make_line lang raw =
     (case re_match (comment_indicator_re lang) raw of
        Some g \<Rightarrow> [CommentLine g]
      | None \<Rightarrow>
          (case re_match clean_line_re raw of
             Some g \<Rightarrow> [CodeLine g]
           | None \<Rightarrow> []))"

fun make_lines :: "string list \<Rightarrow> string \<Rightarrow> line list" where
  "make_lines [] lang = []"
| "make_lines (raw # raws) lang = make_line lang raw @ make_lines raws lang"

subsection \<open>lines_to_blocks\<close>

text \<open>
  The generator, run to its end: the list of the values it yields, in order. A yielded value
  is a block or Python's \<open>None\<close>. \<open>last_block.lines[-1]\<close> raises on an empty list.
\<close>

definition new_block :: "string \<Rightarrow> line \<Rightarrow> block" where
  "new_block lang l = (if is_CodeLine l then CodeBlock lang [] else Block [])"

fun blocks_loop :: "string \<Rightarrow> block option \<Rightarrow> line list \<Rightarrow> py_error + block option list" where
  "blocks_loop lang last_block [] = Inr [last_block]"
| "blocks_loop lang None (l # rest) =
     blocks_loop lang (Some (add_line (new_block lang l) l)) rest"
| "blocks_loop lang (Some b) (l # rest) =
     (if lines b = [] then Inl IndexError
      else if \<not> same_type (last (lines b)) l
      then (case blocks_loop lang (Some (add_line (new_block lang l) l)) rest of
              Inl e \<Rightarrow> Inl e
            | Inr ys \<Rightarrow> Inr (Some b # ys))
      else blocks_loop lang (Some (add_line b l)) rest)"

definition lines_to_blocks :: "line list \<Rightarrow> string \<Rightarrow> py_error + block option list" where
  "lines_to_blocks ls lang = blocks_loop lang None ls"

text \<open>The blocks among the yielded values.\<close>

fun blocks_of :: "block option list \<Rightarrow> block list" where
  "blocks_of [] = []"
| "blocks_of (None # ys) = blocks_of ys"
| "blocks_of (Some b # ys) = b # blocks_of ys"

subsection \<open>File\<close>

text \<open>
  Of a \<open>pathlib.Path\<close> the script uses \<open>str(path)\<close>, \<open>path.suffix\<close> and the lines read
  from the file, which are an argument here.
\<close>

record py_path =
  path_str :: string
  suffix :: string

record py_file =
  path :: py_path
  blocks :: "block option list"

definition suffix_re :: "re_item list" where
  "suffix_re = [Dot, GroupStar NotNewline]"

text \<open>The statement \<open>if language is None: language = re.match(...).group(1)\<close>\<close>

definition derive_language :: "py_path \<Rightarrow> string option \<Rightarrow> py_error + string" where
  "derive_language p language_arg =
     (case language_arg of
        Some lang \<Rightarrow> Inr lang
      | None \<Rightarrow>
          (case re_match suffix_re (suffix p) of
             None \<Rightarrow> Inl AttributeError
           | Some g \<Rightarrow> Inr g))"

definition File_init :: "py_path \<Rightarrow> string option \<Rightarrow> string list \<Rightarrow> py_error + py_file" where
  "File_init p language_arg raw_lines =
     (case derive_language p language_arg of
        Inl e \<Rightarrow> Inl e
      | Inr lang \<Rightarrow>
          (case lines_to_blocks (make_lines raw_lines lang) lang of
             Inl e \<Rightarrow> Inl e
           | Inr bs \<Rightarrow> Inr \<lparr>path = p, blocks = bs\<rparr>))"

text \<open>\<open>str(x)\<close> of a yielded value: \<open>str(None)\<close> is the text \<open>None\<close>.\<close>

fun py_str :: "block option \<Rightarrow> string" where
  "py_str None = ''None''"
| "py_str (Some b) = block_str b"

definition File_str :: "py_file \<Rightarrow> string" where
  "File_str f = ''### '' @ path_str (path f) @ [newline, newline] @ join_nl (map py_str (blocks f))"

subsection \<open>Notions used to state the properties\<close>

text \<open>The literal of the pattern that \<open>make_lines\<close> picks for a language tag.\<close>

definition comment_marker :: "string \<Rightarrow> string" where
  "comment_marker lang = (if lang = ''rs'' then ''//'' else ''#'')"

definition lstrip :: "string \<Rightarrow> string" where
  "lstrip s = dropWhile is_space s"

definition starts_with :: "string \<Rightarrow> string \<Rightarrow> bool" where
  "starts_with m s \<longleftrightarrow> take (length m) s = m"

text \<open>The text without its final newline character, when it ends in one.\<close>

definition strip_newline :: "string \<Rightarrow> string" where
  "strip_newline s = (if s \<noteq> [] \<and> last s = newline then butlast s else s)"

text \<open>
  A raw line, as \<open>readlines\<close> returns it: one physical line, so a newline character can
  only be its last character.
\<close>

definition raw_line :: "string \<Rightarrow> bool" where
  "raw_line s \<longleftrightarrow> newline \<notin> set (butlast s)"

text \<open>The lines of a text: \<open>s.split("\n")\<close>.\<close>

fun split_nl :: "string \<Rightarrow> string list" where
  "split_nl [] = [[]]"
| "split_nl (c # cs) =
     (if c = newline then [] # split_nl cs
      else (case split_nl cs of
              [] \<Rightarrow> [[c]]
            | x # xs \<Rightarrow> (c # x) # xs))"

text \<open>A block holds at least one line, and its lines are of the class of the block.\<close>

definition block_ok :: "block \<Rightarrow> bool" where
  "block_ok b \<longleftrightarrow> lines b \<noteq> [] \<and> list_all (\<lambda>l. is_CodeLine l = is_CodeBlock b) (lines b)"


text \<open>
  The lines of the yielded values, one after the other, as
  \<open>[l for b in blocks for l in b.lines]\<close> reads them: \<open>None\<close> has no attribute
  \<open>lines\<close>, so reading it raises.
\<close>

fun all_lines :: "block option list \<Rightarrow> py_error + line list" where
  "all_lines [] = Inr []"
| "all_lines (None # ys) = Inl AttributeError"
| "all_lines (Some b # ys) =
     (case all_lines ys of Inl e \<Rightarrow> Inl e | Inr ls \<Rightarrow> Inr (lines b @ ls))"

section \<open>What the patterns match\<close>

lemma re_run_group: "re_run [GroupStar NotNewline] s g = Some (g @ takeWhile (\<lambda>c. c \<noteq> newline) s)"
  by (induction s arbitrary: g) auto

lemma re_run_star_group:
  "re_run [Star Whitespace, GroupStar NotNewline] s g =
     Some (g @ takeWhile (\<lambda>c. c \<noteq> newline) (dropWhile is_space s))"
proof (induction s)
  case Nil
  show ?case by simp
next
  case (Cons c cs)
  show ?case
  proof (cases "is_space c")
    case True
    then show ?thesis using Cons by simp
  next
    case False
    then show ?thesis using re_run_group [of "c # cs" g] by simp
  qed
qed

lemma re_run_star_lit:
  assumes "\<not> is_space a"
  shows "re_run (Star Whitespace # Lit (a # l) # r) s g =
     (if take (length (a # l)) (dropWhile is_space s) = a # l
      then re_run r (drop (length (a # l)) (dropWhile is_space s)) g else None)"
proof (induction s)
  case Nil
  show ?case by simp
next
  case (Cons c cs)
  show ?case
  proof (cases "is_space c")
    case True
    with assms have "c \<noteq> a" by auto
    with True Cons show ?thesis by (simp split: option.splits)
  next
    case False
    with assms show ?thesis by simp
  qed
qed

lemma comment_indicator_re_marker:
  "comment_indicator_re lang =
     [Star Whitespace, Lit (comment_marker lang), Star Whitespace, GroupStar NotNewline]"
  by (simp add: comment_indicator_re_def comment_marker_def)

lemma not_space_marker: "\<not> is_space CHR ''/''" "\<not> is_space CHR ''#''"
  by (simp_all add: is_space_def)

lemma re_match_comment:
  "re_match (comment_indicator_re lang) s =
     (if starts_with (comment_marker lang) (lstrip s)
      then Some (takeWhile (\<lambda>c. c \<noteq> newline)
                  (lstrip (drop (length (comment_marker lang)) (lstrip s))))
      else None)"
  by (simp add: re_match_def comment_indicator_re_def comment_marker_def starts_with_def
        lstrip_def re_run_star_lit not_space_marker re_run_star_group)

lemma re_match_clean: "re_match clean_line_re s = Some (takeWhile (\<lambda>c. c \<noteq> newline) s)"
  by (simp add: re_match_def clean_line_re_def re_run_group)

lemma make_line_eq:
  "make_line lang s =
     (if starts_with (comment_marker lang) (lstrip s)
      then [CommentLine (takeWhile (\<lambda>c. c \<noteq> newline)
                  (lstrip (drop (length (comment_marker lang)) (lstrip s))))]
      else [CodeLine (takeWhile (\<lambda>c. c \<noteq> newline) s)])"
  by (simp add: make_line_def re_match_comment re_match_clean)

lemma length_make_line: "length (make_line lang s) = 1"
  by (simp add: make_line_eq)

lemma takeWhile_raw_line:
  "raw_line s \<Longrightarrow> takeWhile (\<lambda>c. c \<noteq> newline) s = strip_newline s"
proof (induction s)
  case Nil
  show ?case by (simp add: strip_newline_def)
next
  case (Cons c cs)
  show ?case
  proof (cases "cs = []")
    case True
    then show ?thesis by (simp add: strip_newline_def)
  next
    case False
    with Cons show ?thesis by (auto simp: strip_newline_def raw_line_def)
  qed
qed

lemma raw_line_dropWhile: "raw_line s \<Longrightarrow> raw_line (dropWhile P s)"
proof (induction s)
  case Nil
  then show ?case by simp
next
  case (Cons c cs)
  then have "raw_line cs" by (cases "cs = []") (simp_all add: raw_line_def)
  with Cons show ?case by simp
qed

lemma raw_line_drop: "raw_line s \<Longrightarrow> raw_line (drop n s)"
  by (auto simp: raw_line_def butlast_drop dest: in_set_dropD)

section \<open>The invariant of the grouping loop\<close>

lemma lines_add_line: "lines (add_line b l) = lines b @ [l]"
  by (cases b) simp_all

lemma is_CodeBlock_add_line: "is_CodeBlock (add_line b l) = is_CodeBlock b"
  by (cases b) simp_all

lemma first_block: "add_line (new_block lang l) l = (if is_CodeLine l then CodeBlock lang [l] else Block [l])"
  by (simp add: new_block_def)

lemma block_ok_first: "block_ok (add_line (new_block lang l) l)"
  by (simp add: first_block block_ok_def)

lemma blocks_loop_Some:
  "block_ok b \<Longrightarrow>
   \<exists>bs. blocks_loop lang (Some b) ls = Inr (map Some (bs)) \<and> bs \<noteq> [] \<and>
        is_CodeBlock (hd bs) = is_CodeBlock b \<and>
        concat (map lines bs) = lines b @ ls \<and>
        list_all block_ok bs \<and>
        distinct_adj (map is_CodeBlock bs)"
proof (induction ls arbitrary: b)
  case Nil
  then show ?case by (intro exI [of _ "[b]"]) simp
next
  case (Cons l rest)
  let ?n = "add_line (new_block lang l) l"
  from Cons.prems have ne: "lines b \<noteq> []"
    and all: "list_all (\<lambda>l. is_CodeLine l = is_CodeBlock b) (lines b)"
    by (simp_all add: block_ok_def)
  from ne all have lastb: "is_CodeLine (last (lines b)) = is_CodeBlock b"
    by (simp add: list_all_iff)
  show ?case
  proof (cases "same_type (last (lines b)) l")
    case True
    with lastb have "is_CodeLine l = is_CodeBlock b" by (simp add: same_type_def)
    with Cons.prems have ok: "block_ok (add_line b l)"
      by (simp add: block_ok_def lines_add_line is_CodeBlock_add_line)
    from Cons.IH [OF ok] obtain bs where
      "blocks_loop lang (Some (add_line b l)) rest = Inr (map Some bs)" "bs \<noteq> []"
      "is_CodeBlock (hd bs) = is_CodeBlock (add_line b l)"
      "concat (map lines bs) = lines (add_line b l) @ rest"
      "list_all block_ok bs" "distinct_adj (map is_CodeBlock bs)"
      by (elim exE conjE) (rule that)
    with True ne show ?thesis
      by (intro exI [of _ bs]) (simp add: lines_add_line is_CodeBlock_add_line)
  next
    case False
    with lastb have diff: "is_CodeLine l \<noteq> is_CodeBlock b" by (auto simp: same_type_def)
    from Cons.IH [OF block_ok_first [of lang l]] obtain bs where bs:
      "blocks_loop lang (Some ?n) rest = Inr (map Some bs)" "bs \<noteq> []"
      "is_CodeBlock (hd bs) = is_CodeBlock ?n"
      "concat (map lines bs) = lines ?n @ rest"
      "list_all block_ok bs" "distinct_adj (map is_CodeBlock bs)"
      by (elim exE conjE) (rule that)
    from diff have "is_CodeBlock ?n \<noteq> is_CodeBlock b" by (simp add: first_block)
    with bs have "distinct_adj (map is_CodeBlock (b # bs))"
      by (cases bs) simp_all
    with bs False ne Cons.prems show ?thesis
      by (intro exI [of _ "b # bs"]) (simp add: first_block)
  qed
qed

lemma lines_to_blocks_Nil: "lines_to_blocks [] lang = Inr [None]"
  by (simp add: lines_to_blocks_def)

lemma blocks_of_map_Some: "blocks_of (map Some bs) = bs"
  by (induction bs) simp_all

lemma lines_to_blocks_Cons:
  "\<exists>bs. lines_to_blocks (l # rest) lang = Inr (map Some bs) \<and> bs \<noteq> [] \<and>
        concat (map lines bs) = l # rest \<and>
        list_all block_ok bs \<and>
        distinct_adj (map is_CodeBlock bs)"
proof -
  from blocks_loop_Some [OF block_ok_first [of lang l], of lang rest]
  obtain bs where
      "blocks_loop lang (Some (add_line (new_block lang l) l)) rest = Inr (map Some bs)" "bs \<noteq> []"
      "concat (map lines bs) = lines (add_line (new_block lang l) l) @ rest"
      "list_all block_ok bs" "distinct_adj (map is_CodeBlock bs)"
    by (elim exE conjE) (rule that)
  then show ?thesis
    by (intro exI [of _ bs]) (simp add: lines_to_blocks_def first_block)
qed

section \<open>Properties of the classification and the grouping\<close>

lemma make_lines_append: "make_lines (xs @ ys) lang = make_lines xs lang @ make_lines ys lang"
  by (induction xs) simp_all

lemma make_line_newline: "make_line lang [newline] = [CodeLine []]"
  by (simp add: make_line_eq starts_with_def lstrip_def comment_marker_def is_space_def newline_def)

lemma all_lines_map_Some: "all_lines (map Some bs) = Inr (concat (map lines bs))"
  by (induction bs) simp_all







text \<open>
  Claim C1: on the empty sequence of lines the grouping yields no block at all. The script
  does not: the loop body never runs, \<open>last_block\<close> is still \<open>None\<close>, and the final
  \<open>yield last_block\<close> hands out that one \<open>None\<close>. The theorem records what the script
  does on the empty input.
\<close>

theorem lines_to_blocks_empty_yields_None:
  "lines_to_blocks [] lang = Inr [None] \<and> lines_to_blocks [] lang \<noteq> Inr []"
  by (simp add: lines_to_blocks_Nil)

text \<open>
  Claim C2: the lines of all yielded blocks, put one after the other in the order of the
  blocks, are the input lines, each once and in their order. The script does this for every
  non-empty input, where it never fails and yields blocks only. On the empty input it yields
  the single value \<open>None\<close> (see C1), which is no block and has no lines, so that reading
  the lines of the yielded values raises instead of giving the empty input back.
\<close>

theorem lines_to_blocks_partition:
  "lines_to_blocks [] lang = Inr [None] \<and> all_lines [None] = Inl AttributeError \<and>
   (ls \<noteq> [] \<longrightarrow>
      (\<exists>ys. lines_to_blocks ls lang = Inr ys \<and> None \<notin> set ys \<and> all_lines ys = Inr ls))"
proof (intro conjI impI)
  show "lines_to_blocks [] lang = Inr [None]" by (rule lines_to_blocks_Nil)
next
  show "all_lines [None] = Inl AttributeError" by simp
next
  assume "ls \<noteq> []"
  then obtain l rest where ls: "ls = l # rest" by (cases ls) simp_all
  from lines_to_blocks_Cons [of l rest lang] obtain bs where
    "lines_to_blocks (l # rest) lang = Inr (map Some bs)" "concat (map lines bs) = l # rest"
    by (elim exE conjE) (rule that)
  with ls show "\<exists>ys. lines_to_blocks ls lang = Inr ys \<and> None \<notin> set ys \<and> all_lines ys = Inr ls"
    by (intro exI [of _ "map Some bs"]) (auto simp: all_lines_map_Some)
qed

theorem lines_to_blocks_partition_witness:
  "[CommentLine ''a'', CodeLine ''b'', CodeLine ''c''] \<noteq> [] \<and>
   lines_to_blocks [CommentLine ''a'', CodeLine ''b'', CodeLine ''c''] ''rs'' =
     Inr [Some (Block [CommentLine ''a'']), Some (CodeBlock ''rs'' [CodeLine ''b'', CodeLine ''c''])] \<and>
   None \<notin> set [Some (Block [CommentLine ''a'']), Some (CodeBlock ''rs'' [CodeLine ''b'', CodeLine ''c''])] \<and>
   all_lines [Some (Block [CommentLine ''a'']), Some (CodeBlock ''rs'' [CodeLine ''b'', CodeLine ''c''])] =
     Inr [CommentLine ''a'', CodeLine ''b'', CodeLine ''c'']"
  using lines_to_blocks_partition [of "''rs''" "[CommentLine ''a'', CodeLine ''b'', CodeLine ''c'']"]
  by (simp add: lines_to_blocks_def new_block_def same_type_def)



text \<open>
  Claim C4: \<open>make_lines\<close> yields as many lines as it is given raw lines. A raw line that
  is only a newline is not skipped: it yields a code line of empty content at its place.
\<close>

theorem make_lines_length:
  "length (make_lines raws lang) = length raws \<and>
   make_lines (xs @ [[newline]] @ ys) lang = make_lines xs lang @ [CodeLine []] @ make_lines ys lang"
proof
  show "length (make_lines raws lang) = length raws"
    by (induction raws) (simp_all add: length_make_line)
  show "make_lines (xs @ [[newline]] @ ys) lang = make_lines xs lang @ [CodeLine []] @ make_lines ys lang"
    by (simp add: make_lines_append make_line_newline)
qed

text \<open>
  Claim C5: a raw line that, after its leading white space, starts with the comment marker of
  the language becomes a comment line whose content is what follows the marker, without the
  white space after the marker and without the final newline; any other raw line becomes a code
  line whose content is the raw line without its final newline, indentation kept. A line that
  is only a newline becomes a code line of empty content.
\<close>

theorem make_line_classification:
  "raw_line s \<Longrightarrow>
   make_line lang s =
     (if starts_with (comment_marker lang) (lstrip s)
      then [CommentLine (strip_newline
              (lstrip (drop (length (comment_marker lang)) (lstrip s))))]
      else [CodeLine (strip_newline s)]) \<and>
   make_line lang [newline] = [CodeLine []] \<and>
   make_line ''py'' ''  # hello world\<newline>'' = [CommentLine ''hello world'']"
proof (intro conjI)
  assume raw: "raw_line s"
  let ?r = "lstrip (drop (length (comment_marker lang)) (lstrip s))"
  from raw have "raw_line ?r"
    by (simp add: lstrip_def raw_line_drop raw_line_dropWhile)
  then have "takeWhile (\<lambda>c. c \<noteq> newline) ?r = strip_newline ?r"
    by (rule takeWhile_raw_line)
  moreover from raw have "takeWhile (\<lambda>c. c \<noteq> newline) s = strip_newline s"
    by (rule takeWhile_raw_line)
  ultimately show "make_line lang s =
     (if starts_with (comment_marker lang) (lstrip s)
      then [CommentLine (strip_newline ?r)]
      else [CodeLine (strip_newline s)])"
    by (simp add: make_line_eq)
next
  show "make_line lang [newline] = [CodeLine []]" by (rule make_line_newline)
next
  show "make_line ''py'' ''  # hello world\<newline>'' = [CommentLine ''hello world'']"
    by (simp add: make_line_eq starts_with_def lstrip_def comment_marker_def is_space_def newline_def)
qed


theorem make_line_classification_witness:
  "raw_line ''    let x = 1;\<newline>'' \<and>
   \<not> starts_with (comment_marker ''rs'') (lstrip ''    let x = 1;\<newline>'') \<and>
   make_line ''rs'' ''    let x = 1;\<newline>'' = [CodeLine ''    let x = 1;'']"
proof -
  have raw: "raw_line ''    let x = 1;\<newline>''"
    by (simp add: raw_line_def newline_def)
  from make_line_classification [OF raw, of "''rs''"] raw show ?thesis
    by (simp add: starts_with_def lstrip_def comment_marker_def is_space_def strip_newline_def newline_def)
qed

text \<open>
  Claim C6: the pattern with the marker \<open>//\<close> is chosen exactly for the tag \<open>rs\<close>;
  every other tag, known or not, gets the pattern with the marker \<open>#\<close>, and no tag makes
  \<open>make_lines\<close> fail. So \<open>// note\<close> is a comment line for \<open>rs\<close> and a code line for
  \<open>py\<close>.
\<close>

theorem comment_marker_choice:
  "(comment_indicator_re lang =
      [Star Whitespace, Lit ''//'', Star Whitespace, GroupStar NotNewline]) = (lang = ''rs'') \<and>
   (lang \<noteq> ''rs'' \<longrightarrow> comment_indicator_re lang =
      [Star Whitespace, Lit ''#'', Star Whitespace, GroupStar NotNewline]) \<and>
   make_lines [''// note\<newline>''] ''rs'' = [CommentLine ''note''] \<and>
   make_lines [''// note\<newline>''] ''py'' = [CodeLine ''// note'']"
  by (simp add: comment_indicator_re_def make_line_eq starts_with_def lstrip_def
        comment_marker_def is_space_def newline_def)


theorem comment_marker_choice_witness:
  "''ttl'' \<noteq> ''rs'' \<and>
   comment_indicator_re ''ttl'' = [Star Whitespace, Lit ''#'', Star Whitespace, GroupStar NotNewline] \<and>
   comment_indicator_re ''ttl'' \<noteq> [Star Whitespace, Lit ''//'', Star Whitespace, GroupStar NotNewline]"
  using comment_marker_choice [of "''ttl''"] by simp

section \<open>Rendering\<close>

lemma split_nl_append: "newline \<notin> set a \<Longrightarrow> split_nl (a @ newline # b) = a # split_nl b"
  by (induction a) auto

lemma split_nl_line: "newline \<notin> set a \<Longrightarrow> split_nl a = [a]"
  by (induction a) auto

lemma split_nl_join:
  "xs \<noteq> [] \<Longrightarrow> list_all (\<lambda>x. newline \<notin> set x) xs \<Longrightarrow>
   split_nl (join_nl xs @ newline # b) = xs @ split_nl b"
proof (induction xs rule: join_nl.induct)
  case 1
  then show ?case by simp
next
  case (2 x)
  then show ?case by (simp add: split_nl_append)
next
  case (3 x y ys)
  then show ?case using split_nl_append [of x "join_nl (y # ys) @ newline # b"] by simp
qed

lemma takeWhile_not_newline: "newline \<notin> set (takeWhile (\<lambda>c. c \<noteq> newline) s)"
  by (auto dest: set_takeWhileD)

lemma make_line_content: "l \<in> set (make_line lang s) \<Longrightarrow> newline \<notin> set (content l)"
  by (auto simp: make_line_eq takeWhile_not_newline split: if_splits)

lemma make_lines_content: "list_all (\<lambda>l. newline \<notin> set (content l)) (make_lines raws lang)"
  by (induction raws) (auto simp: list_all_iff make_line_content)

text \<open>
  Claim C8: a code block with language tag \<open>lang\<close> renders as a newline, three backticks
  and \<open>lang\<close>, a newline, the contents of its lines joined by newlines, a newline, three
  backticks and a newline. Read as lines, for a non-empty block whose tag and contents hold no
  newline character (as all contents made by \<open>make_lines\<close> do): an empty line, the opening
  fence with the tag, the contents one per line, the closing fence, and an empty line.
\<close>

theorem CodeBlock_str_layout:
  "block_str (CodeBlock lang ls) =
     [newline] @ ''```'' @ lang @ [newline] @ join_nl (map content ls) @ [newline] @ ''```'' @ [newline] \<and>
   (ls \<noteq> [] \<longrightarrow> newline \<notin> set lang \<longrightarrow> list_all (\<lambda>l. newline \<notin> set (content l)) ls \<longrightarrow>
      split_nl (block_str (CodeBlock lang ls)) =
        [[], ''```'' @ lang] @ map content ls @ [''```'', []])"
proof (intro conjI impI)
  show "block_str (CodeBlock lang ls) =
     [newline] @ ''```'' @ lang @ [newline] @ join_nl (map content ls) @ [newline] @ ''```'' @ [newline]"
    by simp
next
  assume ne: "ls \<noteq> []" and lang: "newline \<notin> set lang"
    and cs: "list_all (\<lambda>l. newline \<notin> set (content l)) ls"
  from ne have ne': "map content ls \<noteq> []" by simp
  from cs have cs': "list_all (\<lambda>x. newline \<notin> set x) (map content ls)"
    by (simp add: list_all_iff)
  have tick: "CHR 0x60 \<noteq> newline" by (simp add: newline_def)
  from ne' cs' lang tick show "split_nl (block_str (CodeBlock lang ls)) =
        [[], ''```'' @ lang] @ map content ls @ [''```'', []]"
    by (simp add: split_nl_append split_nl_join)
qed

theorem CodeBlock_str_layout_witness:
  "[CodeLine ''fn main() {}'', CodeLine ''fn done() {}''] \<noteq> [] \<and> newline \<notin> set ''rs'' \<and>
   list_all (\<lambda>l. newline \<notin> set (content l)) [CodeLine ''fn main() {}'', CodeLine ''fn done() {}''] \<and>
   split_nl (block_str (CodeBlock ''rs'' [CodeLine ''fn main() {}'', CodeLine ''fn done() {}''])) =
     ['''', ''```rs'', ''fn main() {}'', ''fn done() {}'', ''```'', '''']"
  using CodeBlock_str_layout [of "''rs''" "[CodeLine ''fn main() {}'', CodeLine ''fn done() {}'']"]
  by (simp add: newline_def)

text \<open>
  Claim C7 says that the raw lines \<open># intro text\<close>, \<open>fn main() {}\<close>, \<open>fn done() {}\<close>
  with the tag \<open>rs\<close> give a prose block and a code block. For \<open>rs\<close> the comment marker
  is \<open>//\<close>, so the first line is a code line too: the script yields one code block of three
  lines, and the rendered text is not the one the claim gives.
\<close>

theorem pipeline_hash_intro_counterexample:
  "lines_to_blocks
     (make_lines [''# intro text\<newline>'', ''fn main() {}\<newline>'', ''fn done() {}\<newline>''] ''rs'') ''rs'' =
     Inr [Some (CodeBlock ''rs''
            [CodeLine ''# intro text'', CodeLine ''fn main() {}'', CodeLine ''fn done() {}''])] \<and>
   join_nl (map py_str [Some (CodeBlock ''rs''
            [CodeLine ''# intro text'', CodeLine ''fn main() {}'', CodeLine ''fn done() {}''])]) =
     ''\<newline>```rs\<newline># intro text\<newline>fn main() {}\<newline>fn done() {}\<newline>```\<newline>'' \<and>
   join_nl (map py_str [Some (CodeBlock ''rs''
            [CodeLine ''# intro text'', CodeLine ''fn main() {}'', CodeLine ''fn done() {}''])]) \<noteq>
     ''intro text\<newline>\<newline>```rs\<newline>fn main() {}\<newline>fn done() {}\<newline>```\<newline>''"
  by (simp add: make_line_eq starts_with_def lstrip_def comment_marker_def is_space_def
        lines_to_blocks_def new_block_def same_type_def newline_def)

text \<open>
  Claim C7, amended: with \<open>// intro text\<close> as the first raw line, and the tag \<open>rs\<close>, the
  script yields one plain block holding \<open>intro text\<close> and one code block holding the two code
  lines, and the rendered blocks joined by one newline are exactly the text of the claim.
\<close>

theorem pipeline_slash_intro:
  "lines_to_blocks
     (make_lines [''// intro text\<newline>'', ''fn main() {}\<newline>'', ''fn done() {}\<newline>''] ''rs'') ''rs'' =
     Inr [Some (Block [CommentLine ''intro text'']),
          Some (CodeBlock ''rs'' [CodeLine ''fn main() {}'', CodeLine ''fn done() {}''])] \<and>
   join_nl (map py_str [Some (Block [CommentLine ''intro text'']),
          Some (CodeBlock ''rs'' [CodeLine ''fn main() {}'', CodeLine ''fn done() {}''])]) =
     ''intro text\<newline>\<newline>```rs\<newline>fn main() {}\<newline>fn done() {}\<newline>```\<newline>''"
  by (simp add: make_line_eq starts_with_def lstrip_def comment_marker_def is_space_def
        lines_to_blocks_def new_block_def same_type_def newline_def)

section \<open>Files\<close>

lemma re_match_suffix:
  "re_match suffix_re s =
     (case s of [] \<Rightarrow> None
      | c # r \<Rightarrow> if c \<noteq> newline then Some (takeWhile (\<lambda>c. c \<noteq> newline) r) else None)"
  by (cases s) (simp_all add: re_match_def suffix_re_def re_run_group)

lemma takeWhile_no_newline: "newline \<notin> set s \<Longrightarrow> takeWhile (\<lambda>c. c \<noteq> newline) s = s"
  by (induction s) auto

lemma make_lines_Nil_iff: "make_lines raws lang = [] \<longleftrightarrow> raws = []"
  by (cases raws) (simp_all add: make_line_eq)

text \<open>
  Claim C10: when the suffix of the path is empty and no language is given, \<open>re.match\<close>
  finds no match, \<open>.group(1)\<close> on \<open>None\<close> raises, and so does the construction of the
  \<open>File\<close>; no default tag is used.
\<close>

theorem File_init_no_suffix:
  "suffix p = [] \<Longrightarrow>
   derive_language p None = Inl AttributeError \<and> File_init p None raw_lines = Inl AttributeError"
  by (simp add: File_init_def derive_language_def re_match_suffix)

theorem File_init_no_suffix_witness:
  "suffix \<lparr>path_str = ''Makefile'', suffix = []\<rparr> = [] \<and>
   File_init \<lparr>path_str = ''Makefile'', suffix = []\<rparr> None [''all:\<newline>''] = Inl AttributeError"
  using File_init_no_suffix [of "\<lparr>path_str = ''Makefile'', suffix = []\<rparr>" "[''all:\<newline>'']"]
  by simp

text \<open>
  Claim C9 says that every rendered file is its heading followed by the rendered blocks, and
  that the derived language tag is the suffix without its first character. Neither holds for
  every input: a file without lines renders as the heading followed by the text \<open>None\<close>,
  although it has no block; and the tag derived from a suffix holding a newline character stops
  before that character.
\<close>

theorem File_str_counterexample:
  "File_init \<lparr>path_str = ''empty.rs'', suffix = ''.rs''\<rparr> None [] =
     Inr \<lparr>path = \<lparr>path_str = ''empty.rs'', suffix = ''.rs''\<rparr>, blocks = [None]\<rparr> \<and>
   File_str \<lparr>path = \<lparr>path_str = ''empty.rs'', suffix = ''.rs''\<rparr>, blocks = [None]\<rparr> =
     ''### empty.rs\<newline>\<newline>None'' \<and>
   File_str \<lparr>path = \<lparr>path_str = ''empty.rs'', suffix = ''.rs''\<rparr>, blocks = [None]\<rparr> \<noteq>
     ''### empty.rs\<newline>\<newline>'' @ join_nl (map block_str (blocks_of [None])) \<and>
   derive_language \<lparr>path_str = ''a.b\<newline>c'', suffix = ''.b\<newline>c''\<rparr> None = Inr ''b'' \<and>
   derive_language \<lparr>path_str = ''a.b\<newline>c'', suffix = ''.b\<newline>c''\<rparr> None \<noteq>
     Inr (tl (suffix \<lparr>path_str = ''a.b\<newline>c'', suffix = ''.b\<newline>c''\<rparr>))"
  by (simp add: File_init_def File_str_def derive_language_def re_match_suffix
        lines_to_blocks_def newline_def)

text \<open>
  Claim C9, amended: a given language tag is used as it is; without one the tag is the suffix
  without its first character, up to the first newline character (so a suffix made of a dot
  and a newline-free extension gives the extension: \<open>.rs\<close> gives \<open>rs\<close>). Whenever the tag
  is determined and the file has at least one raw line, the construction succeeds, every yielded
  value is a block, and the file renders as \<open>###\<close>, a blank, the path, two newlines (the heading
  and an empty line), and the rendered blocks joined by one newline.
\<close>

theorem File_str_layout:
  "derive_language p (Some lang) = Inr lang \<and>
   (suffix p = c # r \<longrightarrow> c \<noteq> newline \<longrightarrow>
      derive_language p None = Inr (takeWhile (\<lambda>x. x \<noteq> newline) r)) \<and>
   (suffix p = CHR ''.'' # ext \<longrightarrow> newline \<notin> set ext \<longrightarrow> derive_language p None = Inr ext) \<and>
   (derive_language p a = Inr lang \<longrightarrow> raw_lines \<noteq> [] \<longrightarrow>
      (\<exists>bs. lines_to_blocks (make_lines raw_lines lang) lang = Inr (map Some bs) \<and>
            File_init p a raw_lines = Inr \<lparr>path = p, blocks = map Some bs\<rparr> \<and>
            File_str \<lparr>path = p, blocks = map Some bs\<rparr> =
              ''### '' @ path_str p @ [newline, newline] @ join_nl (map block_str bs)))"
proof (intro conjI impI)
  show "derive_language p (Some lang) = Inr lang"
    by (simp add: derive_language_def)
next
  assume "suffix p = c # r" "c \<noteq> newline"
  then show "derive_language p None = Inr (takeWhile (\<lambda>x. x \<noteq> newline) r)"
    by (simp add: derive_language_def re_match_suffix)
next
  assume s: "suffix p = CHR ''.'' # ext" and n: "newline \<notin> set ext"
  have dot: "CHR ''.'' \<noteq> newline" by (simp add: newline_def)
  from s n dot show "derive_language p None = Inr ext"
    by (simp add: derive_language_def re_match_suffix takeWhile_no_newline)
next
  assume lang: "derive_language p a = Inr lang" and ne: "raw_lines \<noteq> []"
  from ne obtain l rest where ls: "make_lines raw_lines lang = l # rest"
    by (cases "make_lines raw_lines lang") (simp_all add: make_lines_Nil_iff)
  from lines_to_blocks_Cons [of l rest lang] obtain bs where
    bs: "lines_to_blocks (l # rest) lang = Inr (map Some bs)"
    by (elim exE conjE) (rule that)
  from lang ls bs show "\<exists>bs. lines_to_blocks (make_lines raw_lines lang) lang = Inr (map Some bs) \<and>
            File_init p a raw_lines = Inr \<lparr>path = p, blocks = map Some bs\<rparr> \<and>
            File_str \<lparr>path = p, blocks = map Some bs\<rparr> =
              ''### '' @ path_str p @ [newline, newline] @ join_nl (map block_str bs)"
    by (intro exI [of _ bs]) (simp add: File_init_def File_str_def comp_def)
qed

theorem File_str_layout_witness:
  "suffix \<lparr>path_str = ''amp/src/lib.rs'', suffix = ''.rs''\<rparr> = CHR ''.'' # ''rs'' \<and>
   CHR ''.'' \<noteq> newline \<and> newline \<notin> set ''rs'' \<and>
   derive_language \<lparr>path_str = ''amp/src/lib.rs'', suffix = ''.rs''\<rparr> None = Inr ''rs'' \<and>
   [''// intro text\<newline>'', ''fn main() {}\<newline>''] \<noteq> [] \<and>
   (\<exists>bs. File_init \<lparr>path_str = ''amp/src/lib.rs'', suffix = ''.rs''\<rparr> None
            [''// intro text\<newline>'', ''fn main() {}\<newline>''] =
            Inr \<lparr>path = \<lparr>path_str = ''amp/src/lib.rs'', suffix = ''.rs''\<rparr>, blocks = map Some bs\<rparr> \<and>
         File_str \<lparr>path = \<lparr>path_str = ''amp/src/lib.rs'', suffix = ''.rs''\<rparr>, blocks = map Some bs\<rparr> =
            ''### amp/src/lib.rs\<newline>\<newline>'' @ join_nl (map block_str bs))"
proof -
  let ?p = "\<lparr>path_str = ''amp/src/lib.rs'', suffix = ''.rs''\<rparr>"
  have s: "suffix ?p = CHR ''.'' # ''rs''" by simp
  have n: "newline \<notin> set ''rs''" by (simp add: newline_def)
  from File_str_layout [of ?p "''rs''" "CHR ''.''" "''rs''" "''rs''" None
      "[''// intro text\<newline>'', ''fn main() {}\<newline>'']"] s n
  have d: "derive_language ?p None = Inr ''rs''" by blast
  from File_str_layout [of ?p "''rs''" "CHR ''.''" "''rs''" "''rs''" None
      "[''// intro text\<newline>'', ''fn main() {}\<newline>'']"] d
  have "\<exists>bs. File_init ?p None [''// intro text\<newline>'', ''fn main() {}\<newline>''] =
            Inr \<lparr>path = ?p, blocks = map Some bs\<rparr> \<and>
         File_str \<lparr>path = ?p, blocks = map Some bs\<rparr> =
            ''### '' @ path_str ?p @ [newline, newline] @ join_nl (map block_str bs)"
    by blast
  with s n d show ?thesis by (simp add: newline_def)
qed

end
